theory Spec2Isabelle
  imports Complex_Main "HOL-Library.Char_ord" "HOL-Library.List_Lexorder"
    "HOL-Library.Product_Lexorder"
begin

section \<open>Values exchanged between the pages and the backend\<close>

text \<open>
  The pages receive JSON. A JSON number is a finite double; every finite double is a
  rational, comparisons of doubles are exact, and JSON carries neither NaN nor an
  infinity, so a number that is only stored, compared and displayed is modelled as a
  \<open>rat\<close>. A field that may be \<open>null\<close> is an \<open>option\<close>, \<open>None\<close> standing for
  \<open>null\<close>.

  The only exception a page body raises is the TypeError of a property read or a method
  call on \<open>undefined\<close> or \<open>null\<close>.
\<close>

datatype js_error = TypeError

text \<open>
  \<open>x.toFixed(n)\<close> is kept symbolic: \<open>Fixed n x\<close> is the decimal string with \<open>n\<close>
  fraction digits that the call produces for the number \<open>x\<close>.
\<close>

datatype cell = Txt string | Fixed nat rat

definition toFixed :: "rat option \<Rightarrow> nat \<Rightarrow> js_error + cell" where
  "toFixed v n = (case v of None \<Rightarrow> Inl TypeError | Some x \<Rightarrow> Inr (Fixed n x))"

section \<open>Contact Optimization page: the frequency buckets\<close>

text \<open>
  One element of \<open>data.frequency\<close>. The page reads \<open>campaign\<close>, \<open>total_contacts\<close> and
  \<open>conversion_rate_pct\<close> of it.
\<close>

record freq_entry =
  campaign :: rat
  total_contacts :: rat
  conversion_rate_pct :: rat

text \<open>\<open>data.frequency.filter(f => f.campaign <= 10)\<close>\<close>

definition freqData :: "freq_entry list \<Rightarrow> freq_entry list" where
  "freqData frequency = filter (\<lambda>f. campaign f \<le> 10) frequency"

text \<open>The two frequency charts: x and y of the line chart, x and y of the bar chart.\<close>

definition frequencyChart :: "freq_entry list \<Rightarrow> rat list \<times> rat list" where
  "frequencyChart frequency =
     (map campaign (freqData frequency), map conversion_rate_pct (freqData frequency))"

definition frequencyBarChart :: "freq_entry list \<Rightarrow> rat list \<times> rat list" where
  "frequencyBarChart frequency =
     (map campaign (freqData frequency), map total_contacts (freqData frequency))"

text \<open>
  The callback of \<open>reduce\<close>: \<open>(max, f) => f.conversion_rate_pct > max.conversion_rate_pct ? f : max\<close>.
\<close>

definition better :: "freq_entry \<Rightarrow> freq_entry \<Rightarrow> freq_entry" where
  "better mx f = (if conversion_rate_pct f > conversion_rate_pct mx then f else mx)"

text \<open>
  \<open>freqData.reduce(callback, freqData[0])\<close>. On an empty array \<open>freqData[0]\<close> is
  \<open>undefined\<close> and \<open>reduce\<close> returns that initial value: \<open>None\<close>. Otherwise the fold
  starts from the first element and visits every element, the first one included.
\<close>

definition optimalFreq :: "freq_entry list \<Rightarrow> freq_entry option" where
  "optimalFreq frequency =
     (case freqData frequency of
        [] \<Rightarrow> None
      | f0 # rest \<Rightarrow> Some (foldl better f0 (f0 # rest)))"

text \<open>
  The "Optimal Frequency" card shows \<open>optimalFreq.campaign\<close> and
  \<open>optimalFreq.conversion_rate_pct.toFixed(1)\<close>; the recommendation repeats both. Reading
  a property of \<open>undefined\<close> throws.
\<close>

definition optimal_frequency_card :: "freq_entry list \<Rightarrow> js_error + (rat \<times> cell)" where
  "optimal_frequency_card frequency =
     (case optimalFreq frequency of
        None \<Rightarrow> Inl TypeError
      | Some f \<Rightarrow>
          (case toFixed (Some (conversion_rate_pct f)) 1 of
             Inl e \<Rightarrow> Inl e
           | Inr c \<Rightarrow> Inr (campaign f, c)))"

subsection \<open>The fold selects an element of its input with the largest rate\<close>

lemma foldl_better_mem: "foldl better a xs \<in> insert a (set xs)"
  by (induction xs arbitrary: a) (auto simp: better_def)

lemma foldl_better_ge_init:
  "conversion_rate_pct a \<le> conversion_rate_pct (foldl better a xs)"
proof (induction xs arbitrary: a)
  case Nil
  show ?case by simp
next
  case (Cons x xs)
  have "conversion_rate_pct a \<le> conversion_rate_pct (better a x)"
    by (simp add: better_def)
  also have "\<dots> \<le> conversion_rate_pct (foldl better (better a x) xs)"
    by (rule Cons.IH)
  finally show ?case by simp
qed

lemma foldl_better_ge_all:
  "f \<in> set xs \<Longrightarrow> conversion_rate_pct f \<le> conversion_rate_pct (foldl better a xs)"
proof (induction xs arbitrary: a)
  case Nil
  then show ?case by simp
next
  case (Cons x xs)
  show ?case
  proof (cases "f = x")
    case True
    have "conversion_rate_pct x \<le> conversion_rate_pct (better a x)"
      by (simp add: better_def)
    also have "\<dots> \<le> conversion_rate_pct (foldl better (better a x) xs)"
      by (rule foldl_better_ge_init)
    finally show ?thesis using True by simp
  next
    case False
    with Cons.prems have "f \<in> set xs" by simp
    from Cons.IH [OF this] show ?thesis by simp
  qed
qed

lemma optimalFreq_in_freqData:
  "optimalFreq frequency = Some e \<Longrightarrow> e \<in> set (freqData frequency)"
proof -
  assume a: "optimalFreq frequency = Some e"
  then obtain f0 rest where fd: "freqData frequency = f0 # rest"
    by (auto simp: optimalFreq_def split: list.splits)
  with a have "e = foldl better f0 (f0 # rest)"
    by (simp add: optimalFreq_def)
  moreover have "foldl better f0 (f0 # rest) \<in> insert f0 (set (f0 # rest))"
    by (rule foldl_better_mem)
  ultimately show ?thesis using fd by auto
qed

text \<open>
  C10. The optimal frequency, both frequency charts and the recommendation are computed
  over the buckets with \<open>campaign \<le> 10\<close> only: whatever bucket is reported as optimal
  is one of the entries the backend returned, has \<open>campaign \<le> 10\<close> and has the largest
  conversion rate among the entries with \<open>campaign \<le> 10\<close>; every x value of the two
  charts is at most 10; and an entry with \<open>campaign > 10\<close> is neither charted nor ever
  the optimum, whatever its conversion rate.
\<close>

theorem optimal_frequency_only_up_to_10:
  "(optimalFreq frequency = Some e \<longrightarrow>
      e \<in> set frequency \<and> campaign e \<le> 10 \<and>
      (\<forall>f \<in> set frequency. campaign f \<le> 10 \<longrightarrow> conversion_rate_pct f \<le> conversion_rate_pct e))
   \<and> (\<forall>x \<in> set (fst (frequencyChart frequency)). x \<le> 10)
   \<and> (\<forall>x \<in> set (fst (frequencyBarChart frequency)). x \<le> 10)
   \<and> (\<forall>f \<in> set frequency. 10 < campaign f \<longrightarrow>
        f \<notin> set (freqData frequency) \<and> optimalFreq frequency \<noteq> Some f)
   \<and> (optimal_frequency_card frequency = Inr (c, shown) \<longrightarrow> c \<le> 10)"
proof (intro conjI impI ballI)
  assume a: "optimalFreq frequency = Some e"
  from optimalFreq_in_freqData [OF a] show "e \<in> set frequency" "campaign e \<le> 10"
    by (simp_all add: freqData_def)
next
  fix f
  assume a: "optimalFreq frequency = Some e" and f: "f \<in> set frequency" "campaign f \<le> 10"
  from a obtain f0 rest where fd: "freqData frequency = f0 # rest"
    by (auto simp: optimalFreq_def split: list.splits)
  with a have e: "e = foldl better f0 (f0 # rest)"
    by (simp add: optimalFreq_def)
  from f have "f \<in> set (f0 # rest)"
    unfolding fd [symmetric] by (simp add: freqData_def)
  from foldl_better_ge_all [OF this] show "conversion_rate_pct f \<le> conversion_rate_pct e"
    unfolding e .
next
  fix x
  assume "x \<in> set (fst (frequencyChart frequency))"
  then show "x \<le> 10" by (auto simp: frequencyChart_def freqData_def)
next
  fix x
  assume "x \<in> set (fst (frequencyBarChart frequency))"
  then show "x \<le> 10" by (auto simp: frequencyBarChart_def freqData_def)
next
  fix f
  assume "f \<in> set frequency" "10 < campaign f"
  then show "f \<notin> set (freqData frequency)" by (simp add: freqData_def)
next
  fix f
  assume f: "f \<in> set frequency" "10 < campaign f"
  show "optimalFreq frequency \<noteq> Some f"
  proof
    assume "optimalFreq frequency = Some f"
    from optimalFreq_in_freqData [OF this] f show False by (simp add: freqData_def)
  qed
next
  assume a: "optimal_frequency_card frequency = Inr (c, shown)"
  then obtain f where o: "optimalFreq frequency = Some f" and c: "c = campaign f"
    by (auto simp: optimal_frequency_card_def toFixed_def split: option.splits)
  from optimalFreq_in_freqData [OF o] c show "c \<le> 10" by (simp add: freqData_def)
qed

text \<open>
  The theorem at a concrete response: the bucket with 12 contacts converts best (80
  percent), yet the bucket with 2 contacts (30 percent) is the one reported, and the
  charts stop at 2.
\<close>

theorem optimal_frequency_only_up_to_10_witness:
  "optimalFreq
     [\<lparr>campaign = 1, total_contacts = 100, conversion_rate_pct = 10\<rparr>,
      \<lparr>campaign = 2, total_contacts = 50, conversion_rate_pct = 30\<rparr>,
      \<lparr>campaign = 12, total_contacts = 5, conversion_rate_pct = 80\<rparr>]
     = Some \<lparr>campaign = 2, total_contacts = 50, conversion_rate_pct = 30\<rparr>
   \<and> campaign \<lparr>campaign = 2, total_contacts = 50, conversion_rate_pct = 30\<rparr> \<le> 10
   \<and> fst (frequencyChart
     [\<lparr>campaign = 1, total_contacts = 100, conversion_rate_pct = 10\<rparr>,
      \<lparr>campaign = 2, total_contacts = 50, conversion_rate_pct = 30\<rparr>,
      \<lparr>campaign = 12, total_contacts = 5, conversion_rate_pct = 80\<rparr>]) = [1, 2]
   \<and> optimalFreq
     [\<lparr>campaign = 1, total_contacts = 100, conversion_rate_pct = 10\<rparr>,
      \<lparr>campaign = 2, total_contacts = 50, conversion_rate_pct = 30\<rparr>,
      \<lparr>campaign = 12, total_contacts = 5, conversion_rate_pct = 80\<rparr>]
     \<noteq> Some \<lparr>campaign = 12, total_contacts = 5, conversion_rate_pct = 80\<rparr>
   \<and> optimal_frequency_card
     [\<lparr>campaign = 1, total_contacts = 100, conversion_rate_pct = 10\<rparr>,
      \<lparr>campaign = 2, total_contacts = 50, conversion_rate_pct = 30\<rparr>,
      \<lparr>campaign = 12, total_contacts = 5, conversion_rate_pct = 80\<rparr>]
     = Inr (2, Fixed 1 30)"
  using optimal_frequency_only_up_to_10
    [of "[\<lparr>campaign = 1, total_contacts = 100, conversion_rate_pct = 10\<rparr>,
          \<lparr>campaign = 2, total_contacts = 50, conversion_rate_pct = 30\<rparr>,
          \<lparr>campaign = 12, total_contacts = 5, conversion_rate_pct = 80\<rparr>]"
        "\<lparr>campaign = 2, total_contacts = 50, conversion_rate_pct = 30\<rparr>"
        2 "Fixed 1 30"]
  by (simp add: optimalFreq_def freqData_def frequencyChart_def better_def
      optimal_frequency_card_def toFixed_def)

section \<open>Customer Segmentation page: the cluster-count slider\<close>

text \<open>
  The state \<open>nClusters\<close> holds what \<open>parseInt\<close> returns: an integer or NaN. It is an
  \<open>int option\<close>, \<open>None\<close> standing for NaN.
\<close>

subsection \<open>\<open>parseInt\<close> with no radix, and a number in a template string\<close>

fun index_of :: "'a \<Rightarrow> 'a list \<Rightarrow> nat option" where
  "index_of x [] = None"
| "index_of x (y # ys) = (if x = y then Some 0 else map_option Suc (index_of x ys))"

text \<open>The value of a digit character, letters in either case counting from 10.\<close>

definition digit_value :: "char \<Rightarrow> nat option" where
  "digit_value c =
     (case index_of c ''0123456789abcdefghijklmnopqrstuvwxyz'' of
        Some d \<Rightarrow> Some d
      | None \<Rightarrow> index_of c ''0123456789ABCDEFGHIJKLMNOPQRSTUVWXYZ'')"

text \<open>Leading white space that \<open>parseInt\<close> skips (the ASCII part of it).\<close>

definition is_white :: "char \<Rightarrow> bool" where
  "is_white c = (c \<in> set [CHR 0x09, CHR 0x0A, CHR 0x0B, CHR 0x0C, CHR 0x0D, CHR 0x20])"

text \<open>
  The longest prefix of digits of radix \<open>r\<close>, read as a number; \<open>None\<close> when that
  prefix is empty.
\<close>

fun parse_digits :: "nat \<Rightarrow> nat option \<Rightarrow> string \<Rightarrow> nat option" where
  "parse_digits r acc [] = acc"
| "parse_digits r acc (c # cs) =
     (case digit_value c of
        None \<Rightarrow> acc
      | Some d \<Rightarrow>
          if d < r
          then parse_digits r (Some ((case acc of None \<Rightarrow> 0 | Some a \<Rightarrow> a) * r + d)) cs
          else acc)"

text \<open>
  \<open>parseInt(s)\<close>: skip white space, take a sign, take \<open>0x\<close> or \<open>0X\<close> as radix 16 and
  radix 10 otherwise, read the longest prefix of digits, NaN if there is none. (Exact
  below \<open>2^53\<close>, where the double holds the integer.)
\<close>

definition parseInt :: "string \<Rightarrow> int option" where
  "parseInt s =
     (let t = dropWhile is_white s;
          neg = (case t of [] \<Rightarrow> False | c # _ \<Rightarrow> c = CHR ''-'');
          u = (case t of [] \<Rightarrow> t | c # cs \<Rightarrow> if c = CHR ''-'' \<or> c = CHR ''+'' then cs else t);
          hex = (take 2 u = ''0x'' \<or> take 2 u = ''0X'');
          z = (if hex then drop 2 u else u)
      in map_option (\<lambda>n. if neg then - int n else int n)
           (parse_digits (if hex then 16 else 10) None z))"

fun digits10 :: "nat \<Rightarrow> string" where
  "digits10 n =
     (if n < 10 then [''0123456789'' ! n]
      else digits10 (n div 10) @ [''0123456789'' ! (n mod 10)])"

text \<open>\<open>`${v}`\<close> for an integer or NaN.\<close>

definition number_to_string :: "int option \<Rightarrow> string" where
  "number_to_string v =
     (case v of
        None \<Rightarrow> ''NaN''
      | Some k \<Rightarrow> if k < 0 then CHR ''-'' # digits10 (nat (- k)) else digits10 (nat k))"

subsection \<open>The page\<close>

text \<open>
  \<open>getCustomerSegmentation: (nClusters = 4) => api.get(`/customer-segmentation?n_clusters=${nClusters}`)\<close>.
  The argument is \<open>None\<close> when the caller passes none (or \<open>undefined\<close>), and the
  default 4 is taken then. The result is the URL requested, relative to the API base.
\<close>

definition getCustomerSegmentation :: "int option option \<Rightarrow> string" where
  "getCustomerSegmentation arg =
     (let nClusters = (case arg of None \<Rightarrow> Some 4 | Some v \<Rightarrow> v)
      in ''/customer-segmentation?n_clusters='' @ number_to_string nClusters)"

text \<open>
  \<open><input type="range" min="3" max="6" value={nClusters} onChange=...>\<close>. The element
  is the browser's: in the range state its value is a number string on the step grid
  (step 1, from \<open>min\<close>) between \<open>min\<close> and \<open>max\<close>, wherever the user moves the thumb.
  \<open>pos\<close> is the position the user asks for.
\<close>

definition range_value :: "int \<Rightarrow> int \<Rightarrow> int \<Rightarrow> string" where
  "range_value lo hi pos = number_to_string (Some (max lo (min hi pos)))"

datatype event = Change int

record seg_page =
  nClusters :: "int option"
  requests :: "string list"

text \<open>
  \<open>useState(4)\<close>, and the effect with the dependency \<open>[nClusters]\<close> runs \<open>loadData\<close>
  once after the first render.
\<close>

definition mount :: seg_page where
  "mount = \<lparr>nClusters = Some 4, requests = [getCustomerSegmentation (Some (Some 4))]\<rparr>"

text \<open>
  \<open>onChange={(e) => setNClusters(parseInt(e.target.value))}\<close>. Setting the state to the
  value it has re-renders nothing; a new value runs the effect again, which issues the
  request for it.
\<close>

fun on_change :: "seg_page \<Rightarrow> event \<Rightarrow> seg_page" where
  "on_change s (Change pos) =
     (let v = parseInt (range_value 3 6 pos)
      in if v = nClusters s then s
         else \<lparr>nClusters = v, requests = requests s @ [getCustomerSegmentation (Some v)]\<rparr>)"

definition page_after :: "event list \<Rightarrow> seg_page" where
  "page_after evs = foldl on_change mount evs"

subsection \<open>Every request carries a cluster count from 3 to 6\<close>

lemma parseInt_of_slider_strings:
  "parseInt (number_to_string (Some 3)) = Some 3"
  "parseInt (number_to_string (Some 4)) = Some 4"
  "parseInt (number_to_string (Some 5)) = Some 5"
  "parseInt (number_to_string (Some 6)) = Some 6"
  by (simp_all add: number_to_string_def parseInt_def digit_value_def is_white_def)

lemma parseInt_range_value_3_6:
  "parseInt (range_value 3 6 pos) = Some (max 3 (min 6 pos))"
proof -
  define c where "c = max 3 (min 6 pos)"
  have "c \<in> {3, 4, 5, 6}" unfolding c_def by auto
  then have "parseInt (number_to_string (Some c)) = Some c"
    using parseInt_of_slider_strings by auto
  then show ?thesis by (simp add: range_value_def c_def)
qed

text \<open>What holds of the page in every state it reaches.\<close>

definition page_ok :: "seg_page \<Rightarrow> bool" where
  "page_ok s =
     ((\<exists>k. nClusters s = Some k \<and> 3 \<le> k \<and> k \<le> 6) \<and>
      (\<forall>r \<in> set (requests s).
         \<exists>k. 3 \<le> k \<and> k \<le> 6 \<and> r = getCustomerSegmentation (Some (Some k))))"

lemma page_ok_mount: "page_ok mount"
proof -
  have "\<exists>k. (3::int) \<le> k \<and> k \<le> 6 \<and>
      getCustomerSegmentation (Some (Some 4)) = getCustomerSegmentation (Some (Some k))"
    by (rule exI [of _ 4]) simp
  then show ?thesis by (simp add: page_ok_def mount_def)
qed

lemma page_ok_on_change: "page_ok s \<Longrightarrow> page_ok (on_change s ev)"
proof (cases ev)
  case (Change pos)
  assume ok: "page_ok s"
  let ?k = "max 3 (min 6 pos)"
  have k: "3 \<le> ?k" "?k \<le> 6" by auto
  show ?thesis
  proof (cases "Some ?k = nClusters s")
    case True
    then show ?thesis using ok Change by (simp add: parseInt_range_value_3_6 Let_def)
  next
    case False
    then have "on_change s ev =
        \<lparr>nClusters = Some ?k, requests = requests s @ [getCustomerSegmentation (Some (Some ?k))]\<rparr>"
      using Change by (simp add: parseInt_range_value_3_6 Let_def)
    moreover have "\<exists>j. 3 \<le> j \<and> j \<le> 6 \<and>
        getCustomerSegmentation (Some (Some ?k)) = getCustomerSegmentation (Some (Some j))"
      using k by blast
    ultimately show ?thesis using ok k unfolding page_ok_def by auto
  qed
qed

lemma page_ok_foldl: "page_ok s \<Longrightarrow> page_ok (foldl on_change s evs)"
  by (induction evs arbitrary: s) (simp_all add: page_ok_on_change)

text \<open>
  C9. The slider starts at 4, and after any sequence of slider changes the state is an
  integer from 3 to 6 and every customer-segmentation request the page has issued is
  \<open>/customer-segmentation?n_clusters=k\<close> for an integer \<open>k\<close> from 3 to 6, which lies in
  the interval from 2 to 10 that the engine accepts.
\<close>

theorem segmentation_requests_in_3_to_6:
  "nClusters (page_after []) = Some 4
   \<and> (\<exists>k. nClusters (page_after evs) = Some k \<and> 3 \<le> k \<and> k \<le> 6)
   \<and> (\<forall>r \<in> set (requests (page_after evs)).
        \<exists>k. 3 \<le> k \<and> k \<le> 6 \<and> 2 \<le> k \<and> k \<le> 10 \<and>
            r = ''/customer-segmentation?n_clusters='' @ number_to_string (Some k))"
proof -
  have ok: "page_ok (page_after evs)"
    unfolding page_after_def by (rule page_ok_foldl [OF page_ok_mount])
  have "nClusters (page_after []) = Some 4"
    by (simp add: page_after_def mount_def)
  moreover have "\<exists>k. nClusters (page_after evs) = Some k \<and> 3 \<le> k \<and> k \<le> 6"
    using ok by (simp add: page_ok_def)
  moreover have "\<forall>r \<in> set (requests (page_after evs)).
        \<exists>k. 3 \<le> k \<and> k \<le> 6 \<and> 2 \<le> k \<and> k \<le> 10 \<and>
            r = ''/customer-segmentation?n_clusters='' @ number_to_string (Some k)"
  proof
    fix r
    assume "r \<in> set (requests (page_after evs))"
    with ok obtain k where "3 \<le> k" "k \<le> 6" "r = getCustomerSegmentation (Some (Some k))"
      unfolding page_ok_def by blast
    then have "3 \<le> k \<and> k \<le> 6 \<and> 2 \<le> k \<and> k \<le> 10 \<and>
        r = ''/customer-segmentation?n_clusters='' @ number_to_string (Some k)"
      by (simp add: getCustomerSegmentation_def Let_def)
    then show "\<exists>k. 3 \<le> k \<and> k \<le> 6 \<and> 2 \<le> k \<and> k \<le> 10 \<and>
        r = ''/customer-segmentation?n_clusters='' @ number_to_string (Some k)" ..
  qed
  ultimately show ?thesis by blast
qed

text \<open>
  The theorem on a session: the user drags to 5, then twice as far right as the slider
  goes, then as far left as it goes.
\<close>

theorem segmentation_requests_in_3_to_6_witness:
  "requests (page_after [Change 5, Change 9, Change 9, Change 0]) =
     [''/customer-segmentation?n_clusters=4'', ''/customer-segmentation?n_clusters=5'',
      ''/customer-segmentation?n_clusters=6'', ''/customer-segmentation?n_clusters=3'']
   \<and> nClusters (page_after [Change 5, Change 9, Change 9, Change 0]) = Some 3
   \<and> (\<exists>k. 3 \<le> k \<and> k \<le> 6 \<and> 2 \<le> k \<and> k \<le> 10 \<and>
        ''/customer-segmentation?n_clusters=6'' =
        ''/customer-segmentation?n_clusters='' @ number_to_string (Some k))"
proof -
  have r: "requests (page_after [Change 5, Change 9, Change 9, Change 0]) =
     [''/customer-segmentation?n_clusters=4'', ''/customer-segmentation?n_clusters=5'',
      ''/customer-segmentation?n_clusters=6'', ''/customer-segmentation?n_clusters=3'']"
    and n: "nClusters (page_after [Change 5, Change 9, Change 9, Change 0]) = Some 3"
    by (simp_all add: page_after_def mount_def parseInt_range_value_3_6 Let_def
        getCustomerSegmentation_def number_to_string_def)
  from segmentation_requests_in_3_to_6 [of "[Change 5, Change 9, Change 9, Change 0]"]
  have "\<forall>r \<in> set (requests (page_after [Change 5, Change 9, Change 9, Change 0])).
        \<exists>k. 3 \<le> k \<and> k \<le> 6 \<and> 2 \<le> k \<and> k \<le> 10 \<and>
            r = ''/customer-segmentation?n_clusters='' @ number_to_string (Some k)"
    by blast
  then have "\<exists>k. 3 \<le> k \<and> k \<le> 6 \<and> 2 \<le> k \<and> k \<le> 10 \<and>
        ''/customer-segmentation?n_clusters=6'' =
        ''/customer-segmentation?n_clusters='' @ number_to_string (Some k)"
    unfolding r by simp
  with r n show ?thesis by blast
qed

section \<open>Economic Impact page: the correlation chart and table\<close>

text \<open>
  One element of \<open>data.correlations\<close>. \<open>Correlation\<close> and \<open>P-Value\<close> are JSON numbers
  or \<open>null\<close>.
\<close>

record correlation_entry =
  Indicator :: string
  Correlation :: "rat option"
  P_Value :: "rat option"
  Significant :: string

text \<open>
  \<open>d.Correlation < 0 ? 'red' : 'green'\<close>. In a comparison with a number \<open>null\<close> converts
  to 0, so it is not below 0.
\<close>

definition bar_colour :: "rat option \<Rightarrow> string" where
  "bar_colour v = (case v of None \<Rightarrow> ''green'' | Some x \<Rightarrow> if x < 0 then ''red'' else ''green'')"

text \<open>\<open>corrData\<close>: the labels, the values and the colours of the bars. Nothing here throws.\<close>

definition corrData :: "correlation_entry list \<Rightarrow> string list \<times> rat option list \<times> string list" where
  "corrData correlations =
     (map Indicator correlations, map Correlation correlations,
      map (\<lambda>d. bar_colour (Correlation d)) correlations)"

text \<open>
  One \<open><tr>\<close> of the table: \<open>row.Indicator\<close>, \<open>row.Correlation.toFixed(4)\<close>,
  \<open>row['P-Value'].toFixed(6)\<close>, and the badge with its class (green when
  \<open>row.Significant === 'Yes'\<close>) and its text \<open>row.Significant\<close>. The cells are evaluated
  in this order, and the first call that throws ends the evaluation.
\<close>

record table_row =
  indicator_cell :: cell
  correlation_cell :: cell
  p_value_cell :: cell
  badge_green :: bool
  badge_text :: cell

definition render_row :: "correlation_entry \<Rightarrow> js_error + table_row" where
  "render_row row =
     (case toFixed (Correlation row) 4 of
        Inl e \<Rightarrow> Inl e
      | Inr c \<Rightarrow>
          (case toFixed (P_Value row) 6 of
             Inl e \<Rightarrow> Inl e
           | Inr p \<Rightarrow>
               Inr \<lparr>indicator_cell = Txt (Indicator row), correlation_cell = c,
                    p_value_cell = p, badge_green = (Significant row = ''Yes''),
                    badge_text = Txt (Significant row)\<rparr>))"

text \<open>
  \<open>data.correlations.map((row, idx) => <tr>...</tr>)\<close>: an exception in the callback
  leaves \<open>map\<close>, and with it the render of the page.
\<close>

fun correlation_table :: "correlation_entry list \<Rightarrow> js_error + table_row list" where
  "correlation_table [] = Inr []"
| "correlation_table (row # rows) =
     (case render_row row of
        Inl e \<Rightarrow> Inl e
      | Inr r \<Rightarrow>
          (case correlation_table rows of
             Inl e \<Rightarrow> Inl e
           | Inr rs \<Rightarrow> Inr (r # rs)))"

text \<open>
  The sibling cell of the Predictive Models page, \<open>roc_auc?.toFixed(4) || 'N/A'\<close>, which
  does render a missing number.
\<close>

definition roc_auc_cell :: "rat option \<Rightarrow> cell" where
  "roc_auc_cell v = (case v of None \<Rightarrow> Txt ''N/A'' | Some x \<Rightarrow> Fixed 4 x)"

lemma render_row_throws_iff:
  "render_row row = Inl TypeError \<longleftrightarrow> Correlation row = None \<or> P_Value row = None"
  by (auto simp: render_row_def toFixed_def split: option.splits)

lemma correlation_table_throws_iff:
  "correlation_table rows = Inl TypeError
   \<longleftrightarrow> (\<exists>row \<in> set rows. Correlation row = None \<or> P_Value row = None)"
proof (induction rows)
  case Nil
  show ?case by simp
next
  case (Cons row rows)
  show ?case
  proof (cases "render_row row")
    case (Inl e)
    then have "render_row row = Inl TypeError" by (cases e) simp
    then show ?thesis using render_row_throws_iff [of row] by simp
  next
    case (Inr r)
    then have "\<not> (Correlation row = None \<or> P_Value row = None)"
      using render_row_throws_iff [of row] by simp
    then show ?thesis using Inr Cons.IH by (auto split: sum.splits)
  qed
qed

lemma roc_auc_cell_never_throws: "roc_auc_cell None = Txt ''N/A''"
  by (simp add: roc_auc_cell_def)

text \<open>
  C3. An entry with an explicit \<open>null\<close> correlation and \<open>Significant = "No"\<close>, as the
  analyzer reports an indicator whose correlation it cannot compute, passes the chart
  (its bar is drawn green) but the correlation table throws a TypeError on it instead of
  rendering it.
\<close>

theorem correlation_table_throws_on_null:
  "correlation_table
     [\<lparr>Indicator = ''emp.var.rate'', Correlation = None, P_Value = None,
       Significant = ''No''\<rparr>] = Inl TypeError
   \<and> corrData
     [\<lparr>Indicator = ''emp.var.rate'', Correlation = None, P_Value = None,
       Significant = ''No''\<rparr>] = ([''emp.var.rate''], [None], [''green''])
   \<and> correlation_table
     [\<lparr>Indicator = ''euribor3m'', Correlation = Some (-3 / 10), P_Value = Some 0,
       Significant = ''Yes''\<rparr>,
      \<lparr>Indicator = ''emp.var.rate'', Correlation = None, P_Value = Some 1,
       Significant = ''No''\<rparr>] = Inl TypeError"
  by (simp add: render_row_def toFixed_def corrData_def bar_colour_def)

section \<open>Importance Aggregator\<close>

text \<open>
  The aggregator runs in the backend, which is not among the sources (the Feature
  Importance page only displays \<open>data[selectedMethod]\<close>); this section follows the
  specification of the engine. Feature names are strings in their lexicographic order,
  scores are rationals.
\<close>

text \<open>Modelled from the spec: an ImportanceEntry, (feature name, importance score).\<close>

type_synonym importance_entry = "string \<times> rat"

text \<open>
  Modelled from the spec: each method's raw scores are min-max normalized to [0,1]
  independently, \<open>(x - min) / (max - min)\<close> over the scores of that method. The spec
  does not say what a method whose scores are all equal normalizes to; they are taken to
  0 here, and the division by \<open>max - min = 0\<close> is never evaluated.
\<close>

definition min_max_normalize :: "importance_entry list \<Rightarrow> importance_entry list" where
  "min_max_normalize es =
     (case map snd es of
        [] \<Rightarrow> []
      | v # vs \<Rightarrow>
          (let lo = fold min vs v; hi = fold max vs v
           in map (\<lambda>(f, x). (f, if hi = lo then 0 else (x - lo) / (hi - lo))) es))"

text \<open>
  Modelled from the spec: a ranking is sorted descending by score, ties broken by
  feature name (lexicographic).
\<close>

definition ranked :: "importance_entry list \<Rightarrow> importance_entry list" where
  "ranked es = sort_key (\<lambda>(f, x). (- x, f)) es"

text \<open>
  Modelled from the spec: the normalized scores of a feature, one from each method that
  produced a score for it; a method that did not score the feature contributes nothing.
\<close>

definition scores_for :: "string \<Rightarrow> (string \<times> importance_entry list) list \<Rightarrow> rat list" where
  "scores_for f methods =
     List.map_filter (\<lambda>(m, es). map_of (min_max_normalize es) f) methods"

text \<open>Modelled from the spec: the mean of the scores that exist for a feature.\<close>

definition mean :: "rat list \<Rightarrow> rat" where
  "mean xs = sum_list xs / of_nat (length xs)"

text \<open>
  Modelled from the spec: the aggregated score of every feature that some method
  scored.
\<close>

definition aggregated :: "(string \<times> importance_entry list) list \<Rightarrow> importance_entry list" where
  "aggregated methods =
     map (\<lambda>f. (f, mean (scores_for f methods)))
       (remdups (concat (map (\<lambda>(m, es). map fst es) methods)))"

text \<open>Modelled from the spec: the aggregated ranking, truncated to the top \<open>n\<close>.\<close>

definition aggregated_ranking ::
  "nat \<Rightarrow> (string \<times> importance_entry list) list \<Rightarrow> importance_entry list" where
  "aggregated_ranking n methods = take n (ranked (aggregated methods))"

text \<open>
  Modelled from the spec: \<open>aggregate\<close> maps every method to its normalized ranking,
  truncated to the top \<open>n\<close>, plus the method \<open>"aggregated"\<close>. The argument is the raw
  scores of each method, as the bench results expose them.
\<close>

definition aggregate ::
  "nat \<Rightarrow> (string \<times> importance_entry list) list \<Rightarrow> (string \<times> importance_entry list) list" where
  "aggregate n methods =
     map (\<lambda>(m, es). (m, take n (ranked (min_max_normalize es)))) methods
     @ [(''aggregated'', aggregated_ranking n methods)]"

text \<open>
  Two methods: the forest scores \<open>job\<close> and not \<open>month\<close>, the regression the other way
  round.
\<close>

definition two_methods :: "(string \<times> importance_entry list) list" where
  "two_methods =
     [(''random_forest'', [(''euribor3m'', 4 / 10), (''age'', 2 / 10), (''job'', 1 / 10)]),
      (''logistic_regression'', [(''euribor3m'', 3), (''age'', 1), (''month'', 3)])]"

subsection \<open>Normalized scores and their means lie between 0 and 1\<close>

lemma min_max_normalize_fst: "map fst (min_max_normalize es) = map fst es"
  by (cases es) (auto simp: min_max_normalize_def Let_def split_def)

lemma min_max_normalize_bounds:
  assumes "(f, x) \<in> set (min_max_normalize es)"
  shows "0 \<le> x \<and> x \<le> 1"
proof (cases "map snd es")
  case Nil
  with assms show ?thesis by (simp add: min_max_normalize_def)
next
  case (Cons v vs)
  define lo where "lo = fold min vs v"
  define hi where "hi = fold max vs v"
  have lo: "lo = Min (set (map snd es))"
    unfolding lo_def Cons by (rule Min.set_eq_fold [symmetric])
  have hi: "hi = Max (set (map snd es))"
    unfolding hi_def Cons by (rule Max.set_eq_fold [symmetric])
  from assms obtain y where y: "(f, y) \<in> set es"
    and x: "x = (if hi = lo then 0 else (y - lo) / (hi - lo))"
    by (auto simp: min_max_normalize_def Cons lo_def hi_def Let_def)
  from y have mem: "y \<in> set (map snd es)" by force
  have "lo \<le> y" unfolding lo using mem by (intro Min_le) auto
  moreover have "y \<le> hi" unfolding hi using mem by (intro Max_ge) auto
  ultimately show ?thesis unfolding x by auto
qed

lemma sum_list_unit_bounds:
  "(\<forall>x \<in> set xs. 0 \<le> x \<and> x \<le> (1::rat)) \<Longrightarrow> 0 \<le> sum_list xs \<and> sum_list xs \<le> of_nat (length xs)"
  by (induction xs) auto

lemma mean_unit_bounds:
  assumes "xs \<noteq> []" and "\<forall>x \<in> set xs. 0 \<le> x \<and> x \<le> (1::rat)"
  shows "0 \<le> mean xs \<and> mean xs \<le> 1"
proof -
  from assms(1) have n: "0 < (of_nat (length xs) :: rat)" by simp
  from sum_list_unit_bounds [OF assms(2)] n show ?thesis
    unfolding mean_def by (simp add: divide_le_eq)
qed

lemma map_of_normalize_Some_iff:
  "(\<exists>y. map_of (min_max_normalize es) f = Some y) \<longleftrightarrow> f \<in> fst ` set es"
proof -
  have "fst ` set (min_max_normalize es) = fst ` set es"
    using min_max_normalize_fst [of es] by (metis set_map)
  then have "map_of (min_max_normalize es) f = None \<longleftrightarrow> f \<notin> fst ` set es"
    by (simp add: map_of_eq_None_iff)
  then show ?thesis by auto
qed

lemma scores_for_filter:
  "scores_for f methods =
     map (\<lambda>(m, es). the (map_of (min_max_normalize es) f))
       (filter (\<lambda>(m, es). f \<in> fst ` set es) methods)"
proof -
  have "filter (\<lambda>(m, es). f \<in> fst ` set es) methods =
        filter (\<lambda>x. (case x of (m, es) \<Rightarrow> map_of (min_max_normalize es) f) \<noteq> None) methods"
    by (rule filter_cong) (auto simp: map_of_normalize_Some_iff [symmetric])
  then show ?thesis
    unfolding scores_for_def List.map_filter_def by (simp add: comp_def split_def)
qed

lemma scores_for_bounds:
  assumes "x \<in> set (scores_for f methods)"
  shows "0 \<le> x \<and> x \<le> 1"
proof -
  from assms obtain m es where "map_of (min_max_normalize es) f = Some x"
    unfolding scores_for_def List.map_filter_def by auto
  then have "(f, x) \<in> set (min_max_normalize es)" by (rule map_of_SomeD)
  then show ?thesis by (rule min_max_normalize_bounds)
qed

lemma scores_for_nonempty:
  assumes "(m, es) \<in> set methods" "f \<in> fst ` set es"
  shows "scores_for f methods \<noteq> []"
  using assms unfolding scores_for_filter by (auto simp: filter_empty_conv)

lemma aggregated_entry:
  assumes "(f, s) \<in> set (aggregated methods)"
  shows "scores_for f methods \<noteq> [] \<and> s = mean (scores_for f methods)"
proof -
  from assms have s: "s = mean (scores_for f methods)"
    and "f \<in> set (concat (map (\<lambda>(m, es). map fst es) methods))"
    by (auto simp: aggregated_def)
  then obtain m es where "(m, es) \<in> set methods" "f \<in> fst ` set es" by auto
  from scores_for_nonempty [OF this] s show ?thesis by simp
qed

lemma ranked_sorted:
  "sorted_wrt (\<lambda>(f, s) (g, t). t < s \<or> (t = s \<and> f \<le> g)) (ranked es)"
proof -
  have "sorted (map (\<lambda>(f, x). (- x, f)) (ranked es))"
    unfolding ranked_def by (rule sorted_sort_key)
  then have "sorted_wrt (\<lambda>a b. (case a of (f, x) \<Rightarrow> (- x, f)) \<le> (case b of (f, x) \<Rightarrow> (- x, f))) (ranked es)"
    by (simp add: sorted_map)
  then show ?thesis
    by (rule sorted_wrt_mono_rel [rotated]) (auto simp: less_eq_prod_def)
qed

text \<open>
  C6. Every entry \<open>(f, s)\<close> of the \<open>"aggregated"\<close> ranking has a score \<open>s\<close> that is the
  sum of the normalized scores of \<open>f\<close> over the methods that scored \<open>f\<close>, divided by the
  number of these methods (at least one; the methods that did not score \<open>f\<close> count
  neither in the sum nor in the divisor); \<open>s\<close> lies in [0,1]; and the ranking is
  descending by score, entries of equal score standing in the lexicographic order of
  their feature names.
\<close>

theorem aggregated_is_mean_of_existing_scores:
  "last (aggregate n methods) = (''aggregated'', aggregated_ranking n methods)
   \<and> (\<forall>(f, s) \<in> set (aggregated_ranking n methods).
      filter (\<lambda>(m, es). f \<in> fst ` set es) methods \<noteq> [] \<and>
      s = sum_list (map (\<lambda>(m, es). the (map_of (min_max_normalize es) f))
                     (filter (\<lambda>(m, es). f \<in> fst ` set es) methods))
          / of_nat (length (filter (\<lambda>(m, es). f \<in> fst ` set es) methods)) \<and>
      0 \<le> s \<and> s \<le> 1)
   \<and> sorted_wrt (\<lambda>(f, s) (g, t). t < s \<or> (t = s \<and> f \<le> g))
        (aggregated_ranking n methods)"
proof (intro conjI)
  show "last (aggregate n methods) = (''aggregated'', aggregated_ranking n methods)"
    by (simp add: aggregate_def)
  show "\<forall>(f, s) \<in> set (aggregated_ranking n methods).
      filter (\<lambda>(m, es). f \<in> fst ` set es) methods \<noteq> [] \<and>
      s = sum_list (map (\<lambda>(m, es). the (map_of (min_max_normalize es) f))
                     (filter (\<lambda>(m, es). f \<in> fst ` set es) methods))
          / of_nat (length (filter (\<lambda>(m, es). f \<in> fst ` set es) methods)) \<and>
      0 \<le> s \<and> s \<le> 1"
  proof (clarify, intro conjI)
    fix f s
    assume "(f, s) \<in> set (aggregated_ranking n methods)"
    then have "(f, s) \<in> set (aggregated methods)"
      unfolding aggregated_ranking_def ranked_def by (auto dest: in_set_takeD)
    from aggregated_entry [OF this]
    have ne: "scores_for f methods \<noteq> []" and s: "s = mean (scores_for f methods)"
      by simp_all
    from ne show "filter (\<lambda>(m, es). f \<in> fst ` set es) methods \<noteq> []"
      unfolding scores_for_filter by simp
    show "s = sum_list (map (\<lambda>(m, es). the (map_of (min_max_normalize es) f))
                     (filter (\<lambda>(m, es). f \<in> fst ` set es) methods))
          / of_nat (length (filter (\<lambda>(m, es). f \<in> fst ` set es) methods))"
      unfolding s mean_def scores_for_filter by simp
    from mean_unit_bounds [OF ne] scores_for_bounds show "0 \<le> s" "s \<le> 1"
      unfolding s by blast+
  qed
  show "sorted_wrt (\<lambda>(f, s) (g, t). t < s \<or> (t = s \<and> f \<le> g))
      (aggregated_ranking n methods)"
    unfolding aggregated_ranking_def by (rule sorted_wrt_take [OF ranked_sorted])
qed

lemma aggregated_ranking_two_methods:
  "aggregated_ranking 15 two_methods =
     [(''euribor3m'', 1), (''month'', 1), (''age'', 1 / 6), (''job'', 0)]"
  by (simp add: aggregated_ranking_def ranked_def aggregated_def mean_def scores_for_def
      min_max_normalize_def two_methods_def List.map_filter_simps)

text \<open>
  The theorem on the two methods: \<open>age\<close> has the normalized scores 1/3 and 0 and the
  aggregated score 1/6; \<open>month\<close>, which the forest does not score, keeps the 1 of the
  regression; \<open>euribor3m\<close> and \<open>month\<close> tie at 1 and stand in the order of their names.
\<close>

theorem aggregated_is_mean_of_existing_scores_witness:
  "aggregated_ranking 15 two_methods =
     [(''euribor3m'', 1), (''month'', 1), (''age'', 1 / 6), (''job'', 0)]
   \<and> length (filter (\<lambda>(m, es). ''age'' \<in> fst ` set es) two_methods) = 2
   \<and> length (filter (\<lambda>(m, es). ''month'' \<in> fst ` set es) two_methods) = 1
   \<and> (1 / 6 :: rat) =
       sum_list (map (\<lambda>(m, es). the (map_of (min_max_normalize es) ''age''))
                  (filter (\<lambda>(m, es). ''age'' \<in> fst ` set es) two_methods))
       / of_nat (length (filter (\<lambda>(m, es). ''age'' \<in> fst ` set es) two_methods))
   \<and> sorted_wrt (\<lambda>(f, s) (g, t). t < s \<or> (t = s \<and> f \<le> g))
       [(''euribor3m'', 1 :: rat), (''month'', 1), (''age'', 1 / 6), (''job'', 0)]"
proof -
  note r = aggregated_ranking_two_methods
  note th = aggregated_is_mean_of_existing_scores [of 15 two_methods]
  note every = th [THEN conjunct2, THEN conjunct1]
  note srt = th [THEN conjunct2, THEN conjunct2]
  have "(''age'', 1 / 6) \<in> set (aggregated_ranking 15 two_methods)"
    unfolding r by simp
  with every have age: "(1 / 6 :: rat) =
       sum_list (map (\<lambda>(m, es). the (map_of (min_max_normalize es) ''age''))
                  (filter (\<lambda>(m, es). ''age'' \<in> fst ` set es) two_methods))
       / of_nat (length (filter (\<lambda>(m, es). ''age'' \<in> fst ` set es) two_methods))"
    by blast
  have n: "length (filter (\<lambda>(m, es). ''age'' \<in> fst ` set es) two_methods) = 2"
    "length (filter (\<lambda>(m, es). ''month'' \<in> fst ` set es) two_methods) = 1"
    by (simp_all add: two_methods_def)
  from r age n srt show ?thesis by simp
qed

end
